theory Spec2Isabelle
  imports Main "HOL-Library.Sublist" "HOL-Library.Word"
begin

section \<open>PDF to Markdown conversion: a model of \<open>main.ts\<close>\<close>

text \<open>
  The plugin's work is the method \<open>convertFile\<close> of \<open>main.ts\<close> (lines 59 to 186): read a
  PDF from the vault, upload it in two requests, ask the model for Markdown, remove the
  code fences around the answer and write it beside the source. The method is modelled
  here statement by statement, with the state it touches passed explicitly.

  A JavaScript string is modelled by \<^typ>\<open>string\<close>, read as its UTF-8 encoding. Every
  character that the regular expressions, \<open>trim\<close> and \<open>encodeURIComponent\<close> single out is
  either an ASCII character, which is one byte and part of no longer encoding, or a
  white-space character whose encoding is listed below. Strings holding a lone surrogate
  have no UTF-8 encoding and are outside the model.
\<close>

subsection \<open>Strings\<close>

abbreviation CR :: char where "CR \<equiv> CHR 0x0D"
abbreviation LF :: char where "LF \<equiv> CHR 0x0A"
abbreviation QUOTE :: char where "QUOTE \<equiv> CHR 0x27"

text \<open>\<open>Number.prototype.toString\<close> on a non-negative integer: its decimal digits.\<close>

fun show_nat :: "nat \<Rightarrow> string" where
  "show_nat n =
     (if n < 10 then [''0123456789'' ! n]
      else show_nat (n div 10) @ [''0123456789'' ! (n mod 10)])"

text \<open>
  \<open>String.prototype.replace\<close> with a regular expression that has no \<open>g\<close> flag replaces
  the leftmost match only. The engine tries the pattern at index 0, then at index 1, and
  so on up to the end of the string. A pattern is given here by its matcher: applied to
  the part of the string that starts at the index under trial, it returns the length of
  the match there, if there is one. None of the three patterns of \<open>convertFile\<close> has a
  group reference in its replacement, so the replacement is a constant.
\<close>

fun replace_first :: "(string \<Rightarrow> nat option) \<Rightarrow> string \<Rightarrow> string \<Rightarrow> string" where
  "replace_first m rep [] = (case m [] of Some n \<Rightarrow> rep | None \<Rightarrow> [])"
| "replace_first m rep (c # cs) =
     (case m (c # cs) of
        Some n \<Rightarrow> rep @ drop n (c # cs)
      | None \<Rightarrow> c # replace_first m rep cs)"

text \<open>A pattern that begins with \<open>^\<close> (and has no \<open>m\<close> flag) can match at index 0 only.\<close>

definition replace_at_start :: "(string \<Rightarrow> nat option) \<Rightarrow> string \<Rightarrow> string \<Rightarrow> string" where
  "replace_at_start m rep s = (case m s of Some n \<Rightarrow> rep @ drop n s | None \<Rightarrow> s)"

subsection \<open>The fence patterns of line 172\<close>

definition fence :: string where
  "fence = ''```''"

text \<open>
  \<open>/^```(?:markdown)?\r?\n?/\<close>: three backticks, then greedily the tag, a carriage return
  and a line feed, each optional. Nothing is required after them, so the greedy choice is
  never undone.
\<close>

definition leading_fence :: "string \<Rightarrow> nat option" where
  "leading_fence s =
     (if prefix fence s then
        let a = (if prefix ''markdown'' (drop 3 s) then 8 else 0);
            b = (if prefix [CR] (drop (3 + a) s) then 1 else 0);
            c = (if prefix [LF] (drop (3 + a + b) s) then 1 else 0)
        in Some (3 + a + b + c)
      else None)"

text \<open>
  \<open>/\r?\n?```$/\<close> tried at one index: \<open>$\<close> (no \<open>m\<close> flag) holds at the end of the string
  only, so the rest of the string from that index must be exactly the three backticks
  after an optional carriage return and an optional line feed.
\<close>

definition trailing_fence :: "string \<Rightarrow> nat option" where
  "trailing_fence s =
     (if s = CR # LF # fence then Some 5
      else if s = CR # fence then Some 4
      else if s = LF # fence then Some 4
      else if s = fence then Some 3
      else None)"

text \<open>Line 172: \<open>markdown.replace(/^```(?:markdown)?\r?\n?/, '').replace(/\r?\n?```$/, '')\<close>.\<close>

definition strip :: "string \<Rightarrow> string" where
  "strip markdown =
     replace_first trailing_fence [] (replace_at_start leading_fence [] markdown)"

subsection \<open>The output path of line 174\<close>

text \<open>
  \<open>/\.pdf$/i\<close> tried at one index. Under the \<open>i\<close> flag without the \<open>u\<close> flag a pattern
  letter matches its lower-case and its upper-case form and no other character.
\<close>

definition dot_pdf :: "string \<Rightarrow> nat option" where
  "dot_pdf s =
     (case s of
        [c0, c1, c2, c3] \<Rightarrow>
          if c0 = CHR ''.'' \<and> (c1 = CHR ''p'' \<or> c1 = CHR ''P'')
             \<and> (c2 = CHR ''d'' \<or> c2 = CHR ''D'') \<and> (c3 = CHR ''f'' \<or> c3 = CHR ''F'')
          then Some 4 else None
      | _ \<Rightarrow> None)"

text \<open>Line 174: \<open>file.path.replace(/\.pdf$/i, '.md')\<close>.\<close>

definition outputPath :: "string \<Rightarrow> string" where
  "outputPath p = replace_first dot_pdf ''.md'' p"

subsection \<open>\<open>trim\<close>, \<open>encodeURIComponent\<close>\<close>

text \<open>
  The characters that \<open>String.prototype.trim\<close> removes (ECMAScript \<open>WhiteSpace\<close> and
  \<open>LineTerminator\<close>), in UTF-8: tab, line feed, vertical tab, form feed, carriage return,
  space, U+00A0, U+1680, U+2000 to U+200A, U+2028, U+2029, U+202F, U+205F, U+3000, U+FEFF.
\<close>

definition white_space :: "string list" where
  "white_space =
     [[CHR 0x09], [LF], [CHR 0x0B], [CHR 0x0C], [CR], [CHR 0x20],
      [CHR 0xC2, CHR 0xA0],
      [CHR 0xE1, CHR 0x9A, CHR 0x80],
      [CHR 0xE2, CHR 0x80, CHR 0x80], [CHR 0xE2, CHR 0x80, CHR 0x81],
      [CHR 0xE2, CHR 0x80, CHR 0x82], [CHR 0xE2, CHR 0x80, CHR 0x83],
      [CHR 0xE2, CHR 0x80, CHR 0x84], [CHR 0xE2, CHR 0x80, CHR 0x85],
      [CHR 0xE2, CHR 0x80, CHR 0x86], [CHR 0xE2, CHR 0x80, CHR 0x87],
      [CHR 0xE2, CHR 0x80, CHR 0x88], [CHR 0xE2, CHR 0x80, CHR 0x89],
      [CHR 0xE2, CHR 0x80, CHR 0x8A],
      [CHR 0xE2, CHR 0x80, CHR 0xA8], [CHR 0xE2, CHR 0x80, CHR 0xA9],
      [CHR 0xE2, CHR 0x80, CHR 0xAF],
      [CHR 0xE2, CHR 0x81, CHR 0x9F],
      [CHR 0xE3, CHR 0x80, CHR 0x80],
      [CHR 0xEF, CHR 0xBB, CHR 0xBF]]"

function trimStart :: "string \<Rightarrow> string" where
  "trimStart s =
     (case find (\<lambda>ws. prefix ws s) white_space of
        None \<Rightarrow> s
      | Some ws \<Rightarrow> trimStart (drop (length ws) s))"
  by pat_completeness auto
termination
proof (relation "measure length")
  show "wf (measure length)" by simp
next
  fix s ws :: string
  assume "find (\<lambda>ws. prefix ws s) white_space = Some ws"
  then have "ws \<in> set white_space" and p: "prefix ws s"
    by (auto simp: find_Some_iff)
  then have "ws \<noteq> []" by (auto simp: white_space_def)
  with p have "length (drop (length ws) s) < length s"
    by (cases s) (auto simp: prefix_def)
  then show "(drop (length ws) s, s) \<in> measure length" by simp
qed

function trimEnd :: "string \<Rightarrow> string" where
  "trimEnd s =
     (case find (\<lambda>ws. suffix ws s) white_space of
        None \<Rightarrow> s
      | Some ws \<Rightarrow> trimEnd (take (length s - length ws) s))"
  by pat_completeness auto
termination
proof (relation "measure length")
  show "wf (measure length)" by simp
next
  fix s ws :: string
  assume "find (\<lambda>ws. suffix ws s) white_space = Some ws"
  then have "ws \<in> set white_space" and p: "suffix ws s"
    by (auto simp: find_Some_iff)
  then have "ws \<noteq> []" by (auto simp: white_space_def)
  with p have "length (take (length s - length ws) s) < length s"
    by (cases s) (auto simp: suffix_def)
  then show "(take (length s - length ws) s, s) \<in> measure length" by simp
qed

definition trim :: "string \<Rightarrow> string" where
  "trim s = trimEnd (trimStart s)"

text \<open>
  \<open>encodeURIComponent\<close> keeps the letters, the digits and \<open>- _ . ! ~ * ' ( )\<close> and writes
  every other byte of the UTF-8 encoding as \<open>%XX\<close>.
\<close>

definition uri_unreserved :: "char \<Rightarrow> bool" where
  "uri_unreserved c \<longleftrightarrow>
     c \<in> set (''ABCDEFGHIJKLMNOPQRSTUVWXYZabcdefghijklmnopqrstuvwxyz0123456789-_.!~*()'' @ [QUOTE])"

definition percent :: "char \<Rightarrow> string" where
  "percent c =
     [CHR ''%'', ''0123456789ABCDEF'' ! (of_char c div 16), ''0123456789ABCDEF'' ! (of_char c mod 16)]"

definition encodeURIComponent :: "string \<Rightarrow> string" where
  "encodeURIComponent s = concat (map (\<lambda>c. if uri_unreserved c then [c] else percent c) s)"

subsection \<open>JSON values and the property reads of lines 128 to 170\<close>

text \<open>
  What \<open>JSON.parse\<close> returns. A number is kept as the string that \<open>Number.prototype.toString\<close>
  gives for it: \<open>convertFile\<close> observes a number only through that string and through its
  truth value, and a parsed number is falsy exactly when it prints as \<open>0\<close>. An object is
  the list of its own properties. The value \<open>undefined\<close> is \<^const>\<open>None\<close>.
\<close>

datatype json =
    JNull
  | JBool bool
  | JNumber string
  | JString string
  | JArray "json list"
  | JObject "(string \<times> json) list"

type_synonym js_value = "json option"

datatype js_error =
    Error (message: string)
  | TypeError (message: string)
  | SyntaxError (message: string)

text \<open>The length of a string in UTF-16 code units, counted on its UTF-8 bytes.\<close>

definition utf16_units :: "char \<Rightarrow> nat" where
  "utf16_units c =
     (let n = (of_char c :: nat)
      in if n < 128 then 1 else if n < 192 then 0 else if n < 240 then 1 else 2)"

definition utf16_length :: "string \<Rightarrow> nat" where
  "utf16_length s = sum_list (map utf16_units s)"

definition cannot_read :: "string \<Rightarrow> string \<Rightarrow> js_error" where
  "cannot_read what k =
     TypeError (''Cannot read properties of '' @ what @ '' (reading '' @ [QUOTE] @ k @ [QUOTE] @ '')'')"

text \<open>
  \<open>v.k\<close> for a property name \<open>k\<close> that is not an array index. Reading a property of
  \<open>undefined\<close> or \<open>null\<close> throws. The names read by \<open>convertFile\<close> (\<open>file\<close>, \<open>uri\<close>,
  \<open>candidates\<close>, \<open>length\<close>, \<open>content\<close>, \<open>parts\<close>, \<open>text\<close>) are inherited by no parsed value,
  so only own properties and the \<open>length\<close> of arrays and strings are found.
\<close>

fun get_prop :: "js_value \<Rightarrow> string \<Rightarrow> js_error + js_value" where
  "get_prop None k = Inl (cannot_read ''undefined'' k)"
| "get_prop (Some JNull) k = Inl (cannot_read ''null'' k)"
| "get_prop (Some (JObject kvs)) k = Inr (map_of kvs k)"
| "get_prop (Some (JArray xs)) k =
     Inr (if k = ''length'' then Some (JNumber (show_nat (length xs))) else None)"
| "get_prop (Some (JString s)) k =
     Inr (if k = ''length'' then Some (JNumber (show_nat (utf16_length s))) else None)"
| "get_prop (Some (JBool b)) k = Inr None"
| "get_prop (Some (JNumber n)) k = Inr None"

text \<open>
  \<open>v[i]\<close>. An object is asked for its property named by the digits of \<open>i\<close>. A string
  gives its code unit at \<open>i\<close> as a string of length one; only \<open>i = 0\<close> is read, and for a
  first character outside ASCII the model returns the first byte of its encoding, which
  like every string has none of the properties read next.
\<close>

fun get_index :: "js_value \<Rightarrow> nat \<Rightarrow> js_error + js_value" where
  "get_index None i = Inl (cannot_read ''undefined'' (show_nat i))"
| "get_index (Some JNull) i = Inl (cannot_read ''null'' (show_nat i))"
| "get_index (Some (JObject kvs)) i = Inr (map_of kvs (show_nat i))"
| "get_index (Some (JArray xs)) i = Inr (if i < length xs then Some (xs ! i) else None)"
| "get_index (Some (JString s)) i =
     Inr (if i < utf16_length s then Some (JString (take 1 (drop i s))) else None)"
| "get_index (Some (JBool b)) i = Inr None"
| "get_index (Some (JNumber n)) i = Inr None"

text \<open>The truth value that \<open>!v\<close> negates.\<close>

fun truthy :: "js_value \<Rightarrow> bool" where
  "truthy None = False"
| "truthy (Some JNull) = False"
| "truthy (Some (JBool b)) = b"
| "truthy (Some (JNumber n)) = (n \<noteq> ''0'')"
| "truthy (Some (JString s)) = (s \<noteq> [])"
| "truthy (Some (JArray xs)) = True"
| "truthy (Some (JObject kvs)) = True"

text \<open>
  \<open>ToString\<close> of a parsed value, as \<open>Array.prototype.join\<close> applies it. An array prints as
  its elements joined by commas, \<open>null\<close> elements printing as nothing. A plain object
  prints as \<open>[object Object]\<close> through the inherited \<open>toString\<close>; an own property of that
  name is no function, and then the conversion throws.
\<close>

fun intercalate :: "string \<Rightarrow> string list \<Rightarrow> string" where
  "intercalate sep [] = []"
| "intercalate sep [s] = s"
| "intercalate sep (s # t # ss) = s @ sep @ intercalate sep (t # ss)"

fun to_string :: "json \<Rightarrow> js_error + string"
  and to_strings :: "json list \<Rightarrow> js_error + string list" where
  "to_string JNull = Inr ''null''"
| "to_string (JBool b) = Inr (if b then ''true'' else ''false'')"
| "to_string (JNumber n) = Inr n"
| "to_string (JString s) = Inr s"
| "to_string (JArray xs) =
     (case to_strings xs of Inl e \<Rightarrow> Inl e | Inr ss \<Rightarrow> Inr (intercalate '','' ss))"
| "to_string (JObject kvs) =
     (if map_of kvs ''toString'' = None then Inr ''[object Object]''
      else Inl (TypeError ''Cannot convert object to primitive value''))"
| "to_strings [] = Inr []"
| "to_strings (x # xs) =
     (case (if x = JNull then Inr [] else to_string x) of
        Inl e \<Rightarrow> Inl e
      | Inr s \<Rightarrow> (case to_strings xs of Inl e \<Rightarrow> Inl e | Inr ss \<Rightarrow> Inr (s # ss)))"

text \<open>\<open>xs.join('')\<close> on the array built by \<open>map\<close>: its elements may be \<open>undefined\<close>.\<close>

fun join_empty :: "js_value list \<Rightarrow> js_error + string" where
  "join_empty [] = Inr []"
| "join_empty (None # vs) = join_empty vs"
| "join_empty (Some x # vs) =
     (case (if x = JNull then Inr [] else to_string x) of
        Inl e \<Rightarrow> Inl e
      | Inr s \<Rightarrow> (case join_empty vs of Inl e \<Rightarrow> Inl e | Inr t \<Rightarrow> Inr (s @ t)))"

text \<open>
  \<open>parts.map((part) => part.text)\<close>: only an array has a callable \<open>map\<close>; the callback
  runs on the elements in order and the first exception ends the call.
\<close>

fun map_text :: "json list \<Rightarrow> js_error + js_value list" where
  "map_text [] = Inr []"
| "map_text (part # ps) =
     (case get_prop (Some part) ''text'' of
        Inl e \<Rightarrow> Inl e
      | Inr v \<Rightarrow> (case map_text ps of Inl e \<Rightarrow> Inl e | Inr vs \<Rightarrow> Inr (v # vs)))"

fun parts_map_text :: "js_value \<Rightarrow> js_error + js_value list" where
  "parts_map_text None = Inl (cannot_read ''undefined'' ''map'')"
| "parts_map_text (Some JNull) = Inl (cannot_read ''null'' ''map'')"
| "parts_map_text (Some (JArray ps)) = map_text ps"
| "parts_map_text (Some v) = Inl (TypeError ''candidates[0].content.parts.map is not a function'')"

subsection \<open>The host: vault, network, notices\<close>

text \<open>
  \<open>TFile\<close>, the handle of the file to convert, with the two fields that are read.
\<close>

record tfile =
  name :: string
  path :: string

record PDF2MDSettings =
  apiKey :: string
  modelName :: string
  systemPrompt :: string
  userPrompt :: string
  temperature :: string

text \<open>
  The \<open>temperature\<close> is a number, kept like \<^const>\<open>JNumber\<close> as its decimal rendering;
  \<open>convertFile\<close> does not read it.
\<close>

type_synonym bytes = "8 word list"

datatype body = JsonBody json | BinaryBody bytes

text \<open>
  The two arguments of a \<open>fetch\<close> call. A body built by \<open>JSON.stringify\<close> is kept as the
  value that is serialised.
\<close>

record request =
  url :: string
  http_method :: string
  headers :: "(string \<times> string) list"
  body :: body

text \<open>
  What \<open>convertFile\<close> reads of a \<open>Response\<close>: the status, the function \<open>headers.get\<close>, and
  the outcome of \<open>text()\<close>, which may reject. \<open>ok\<close> is true for a status from 200 to 299.
\<close>

record response =
  status :: nat
  headers_get :: "string \<Rightarrow> string option"
  text_body :: "js_error + string"

definition ok :: "response \<Rightarrow> bool" where
  "ok r \<longleftrightarrow> 200 \<le> status r \<and> status r \<le> 299"

text \<open>
  The parts of the environment that answer the run: the binary read of the vault, the
  network and \<open>JSON.parse\<close>. Each may fail with an exception (a rejected promise).
\<close>

record host =
  readBinary :: "tfile \<Rightarrow> js_error + bytes"
  fetch :: "request \<Rightarrow> js_error + response"
  JSON_parse :: "string \<Rightarrow> js_error + json"

text \<open>
  The vault maps a path to a file with its content or to a folder.
  \<open>getAbstractFileByPath\<close> is the lookup; \<open>modify\<close> replaces the content of a file;
  \<open>create\<close> adds a file and throws when the path is taken.
\<close>

datatype entry = File string | Folder

type_synonym vault = "string \<rightharpoonup> entry"

text \<open>
  The state that a run changes: the notices shown, the requests sent, the vault.
\<close>

record world =
  notices :: "string list"
  requests :: "request list"
  vault :: vault

definition start :: "vault \<Rightarrow> world" where
  "start v = \<lparr>notices = [], requests = [], vault = v\<rparr>"

definition Notice :: "string \<Rightarrow> world \<Rightarrow> world" where
  "Notice msg w = w\<lparr>notices := notices w @ [msg]\<rparr>"

definition sent :: "request \<Rightarrow> world \<Rightarrow> world" where
  "sent req w = w\<lparr>requests := requests w @ [req]\<rparr>"

definition modify :: "string \<Rightarrow> string \<Rightarrow> world \<Rightarrow> world" where
  "modify p data w = w\<lparr>vault := (vault w)(p \<mapsto> File data)\<rparr>"

definition create :: "string \<Rightarrow> string \<Rightarrow> world \<Rightarrow> js_error + world" where
  "create p data w =
     (if vault w p = None then Inr (w\<lparr>vault := (vault w)(p \<mapsto> File data)\<rparr>)
      else Inl (Error ''File already exists.''))"

subsection \<open>Control flow\<close>

text \<open>
  A block of statements either runs to its end with a value, or leaves the method by
  \<open>return\<close>, or throws.
\<close>

datatype 'a flow = Continue 'a | Return | Throw js_error

definition and_then ::
    "'a flow \<times> world \<Rightarrow> ('a \<Rightarrow> world \<Rightarrow> 'b flow \<times> world) \<Rightarrow> 'b flow \<times> world" where
  "and_then r k =
     (case r of
        (Continue x, w) \<Rightarrow> k x w
      | (Return, w) \<Rightarrow> (Return, w)
      | (Throw e, w) \<Rightarrow> (Throw e, w))"

text \<open>\<open>a || b\<close> on the results of \<open>headers.get\<close>: a string or \<open>null\<close>.\<close>

definition or_else :: "string option \<Rightarrow> string option \<Rightarrow> string option" where
  "or_else a b = (case a of None \<Rightarrow> b | Some s \<Rightarrow> if s = [] then b else Some s)"

subsection \<open>\<open>convertFile\<close>, lines 59 to 186\<close>

text \<open>Lines 77 to 90, the arguments of the first \<open>fetch\<close>.\<close>

definition start_request :: "string \<Rightarrow> nat \<Rightarrow> string \<Rightarrow> string \<Rightarrow> request" where
  "start_request key fileSize mimeType displayName =
     \<lparr>url = ''https://generativelanguage.googleapis.com/upload/v1beta/files?key='' @ key,
      http_method = ''POST'',
      headers =
        [(''X-Goog-Upload-Protocol'', ''resumable''),
         (''X-Goog-Upload-Command'', ''start''),
         (''X-Goog-Upload-Header-Content-Length'', show_nat fileSize),
         (''X-Goog-Upload-Header-Content-Type'', mimeType),
         (''Content-Type'', ''application/json'')],
      body = JsonBody (JObject [(''file'', JObject [(''display_name'', JString displayName)])])\<rparr>"

text \<open>Lines 77 to 105: start the upload session and read the upload URL.\<close>

definition startUpload ::
    "host \<Rightarrow> string \<Rightarrow> nat \<Rightarrow> string \<Rightarrow> string \<Rightarrow> world \<Rightarrow> string flow \<times> world" where
  "startUpload h key fileSize mimeType displayName w =
     (let req = start_request key fileSize mimeType displayName;
          w1 = sent req w
      in case fetch h req of
           Inl e \<Rightarrow> (Throw e, w1)
         | Inr startResponse \<Rightarrow>
             (case text_body startResponse of
                Inl e \<Rightarrow> (Throw e, w1)
              | Inr startText \<Rightarrow>
                  if \<not> ok startResponse then
                    (Return,
                     Notice (''Upload start failed: '' @ show_nat (status startResponse)
                             @ '' - '' @ startText) w1)
                  else
                    let w2 = Notice ''Upload session started'' w1;
                        uploadUrl = or_else (headers_get startResponse ''x-goog-upload-url'')
                                            (headers_get startResponse ''X-Goog-Upload-URL'')
                    in case uploadUrl of
                         None \<Rightarrow> (Return, Notice ''No upload URL returned'' w2)
                       | Some u \<Rightarrow>
                           if u = [] then (Return, Notice ''No upload URL returned'' w2)
                           else (Continue u, w2)))"

text \<open>Lines 109 to 118, the arguments of the second \<open>fetch\<close>.\<close>

definition upload_request :: "string \<Rightarrow> nat \<Rightarrow> string \<Rightarrow> bytes \<Rightarrow> request" where
  "upload_request uploadUrl fileSize mimeType u8array =
     \<lparr>url = uploadUrl,
      http_method = ''POST'',
      headers =
        [(''Content-Type'', mimeType),
         (''Content-Length'', show_nat fileSize),
         (''X-Goog-Upload-Offset'', ''0''),
         (''X-Goog-Upload-Command'', ''upload, finalize'')],
      body = BinaryBody u8array\<rparr>"

text \<open>Lines 107 to 134: send the bytes, parse the answer, read \<open>fileInfo.file.uri\<close>.\<close>

definition finalizeUpload ::
    "host \<Rightarrow> string \<Rightarrow> nat \<Rightarrow> string \<Rightarrow> bytes \<Rightarrow> world \<Rightarrow> json flow \<times> world" where
  "finalizeUpload h uploadUrl fileSize mimeType u8array w =
     (let w1 = Notice ''Uploading file...'' w;
          req = upload_request uploadUrl fileSize mimeType u8array;
          w2 = sent req w1
      in case fetch h req of
           Inl e \<Rightarrow> (Throw e, w2)
         | Inr uploadResponse \<Rightarrow>
             (case text_body uploadResponse of
                Inl e \<Rightarrow> (Throw e, w2)
              | Inr uploadText \<Rightarrow>
                  if \<not> ok uploadResponse then
                    (Return,
                     Notice (''Upload content failed: '' @ show_nat (status uploadResponse)
                             @ '' - '' @ uploadText) w2)
                  else
                    let w3 = Notice ''File uploaded successfully'' w2
                    in case JSON_parse h uploadText of
                         Inl e \<Rightarrow> (Throw e, w3)
                       | Inr fileInfo \<Rightarrow>
                           (case get_prop (Some fileInfo) ''file'' of
                              Inl e \<Rightarrow> (Throw e, w3)
                            | Inr file_member \<Rightarrow>
                                (case get_prop file_member ''uri'' of
                                   Inl e \<Rightarrow> (Throw e, w3)
                                 | Inr fileUri \<Rightarrow>
                                     (case fileUri of
                                        None \<Rightarrow> (Return, Notice ''No file URI returned'' w3)
                                      | Some uri \<Rightarrow>
                                          if \<not> truthy fileUri
                                          then (Return, Notice ''No file URI returned'' w3)
                                          else (Continue uri, w3))))))"

text \<open>Lines 138 to 155, the arguments of the third \<open>fetch\<close>.\<close>

definition generate_request :: "PDF2MDSettings \<Rightarrow> string \<Rightarrow> string \<Rightarrow> json \<Rightarrow> request" where
  "generate_request settings key mimeType fileUri =
     \<lparr>url = ''https://generativelanguage.googleapis.com/v1beta/models/''
             @ encodeURIComponent (modelName settings) @ '':generateContent?key='' @ key,
      http_method = ''POST'',
      headers = [(''Content-Type'', ''application/json'')],
      body = JsonBody (JObject [(''contents'', JArray [JObject [(''parts'', JArray
               [JObject [(''text'', JString (systemPrompt settings))],
                JObject [(''text'', JString (userPrompt settings))],
                JObject [(''file_data'', JObject [(''file_uri'', fileUri),
                                                  (''mime_type'', JString mimeType)])]])]])])\<rparr>"

text \<open>
  Lines 164 to 170: from the parsed answer to the joined text of the first candidate.
  \<open>candidates?.length\<close> is \<open>undefined\<close> when \<open>candidates\<close> is \<open>undefined\<close> or \<open>null\<close>.
\<close>

definition candidate_text :: "json \<Rightarrow> js_error + string" where
  "candidate_text genData =
     (case get_prop (Some genData) ''candidates'' of
        Inl e \<Rightarrow> Inl e
      | Inr candidates \<Rightarrow>
          (case (if candidates = None \<or> candidates = Some JNull then Inr None
                 else get_prop candidates ''length'') of
             Inl e \<Rightarrow> Inl e
           | Inr len \<Rightarrow>
               if \<not> truthy len then Inl (Error ''No candidates returned'')
               else
                 (case get_index candidates 0 of
                    Inl e \<Rightarrow> Inl e
                  | Inr first \<Rightarrow>
                      (case get_prop first ''content'' of
                         Inl e \<Rightarrow> Inl e
                       | Inr content \<Rightarrow>
                           (case get_prop content ''parts'' of
                              Inl e \<Rightarrow> Inl e
                            | Inr parts \<Rightarrow>
                                (case parts_map_text parts of
                                   Inl e \<Rightarrow> Inl e
                                 | Inr contentParts \<Rightarrow> join_empty contentParts))))))"

text \<open>Lines 136 to 172: ask for the Markdown and remove the fences.\<close>

definition generate ::
    "host \<Rightarrow> PDF2MDSettings \<Rightarrow> string \<Rightarrow> string \<Rightarrow> json \<Rightarrow> world \<Rightarrow> string flow \<times> world" where
  "generate h settings key mimeType fileUri w =
     (let w1 = Notice ''Waiting for API response...'' w;
          req = generate_request settings key mimeType fileUri;
          w2 = sent req w1
      in case fetch h req of
           Inl e \<Rightarrow> (Throw e, w2)
         | Inr generateResponse \<Rightarrow>
             (case text_body generateResponse of
                Inl e \<Rightarrow> (Throw e, w2)
              | Inr generateText \<Rightarrow>
                  if \<not> ok generateResponse then
                    (Return,
                     Notice (''Generate content failed: '' @ show_nat (status generateResponse)
                             @ '' - '' @ generateText) w2)
                  else
                    let w3 = Notice ''API response received, generating markdown...'' w2
                    in case JSON_parse h generateText of
                         Inl e \<Rightarrow> (Throw e, w3)
                       | Inr genData \<Rightarrow>
                           (case candidate_text genData of
                              Inl e \<Rightarrow> (Throw e, w3)
                            | Inr markdown \<Rightarrow> (Continue (strip markdown), w3))))"

text \<open>Lines 174 to 181: write the Markdown beside the source.\<close>

definition writeOutput :: "tfile \<Rightarrow> string \<Rightarrow> world \<Rightarrow> unit flow \<times> world" where
  "writeOutput file markdown w =
     (let newPath = outputPath (path file);
          existing = vault w newPath;
          done = Notice (''Converted '' @ name file @ '' to '' @ newPath)
      in case existing of
           Some (File old) \<Rightarrow> (Continue (), done (modify newPath markdown w))
         | _ \<Rightarrow>
             (case create newPath markdown w of
                Inl e \<Rightarrow> (Throw e, w)
              | Inr w' \<Rightarrow> (Continue (), done w')))"

text \<open>Lines 62 to 172: everything of the \<open>try\<close> block before the write.\<close>

definition produce_markdown ::
    "host \<Rightarrow> PDF2MDSettings \<Rightarrow> tfile \<Rightarrow> world \<Rightarrow> string flow \<times> world" where
  "produce_markdown h settings file w =
     (case readBinary h file of
        Inl e \<Rightarrow> (Throw e, w)
      | Inr u8array \<Rightarrow>
          let mimeType = ''application/pdf'';
              fileSize = length u8array;
              displayName = name file;
              key = trim (apiKey settings)
          in if key = [] then (Return, Notice ''Please set your API key in plugin settings.'' w)
             else
               and_then (startUpload h key fileSize mimeType displayName w) (\<lambda>uploadUrl w1.
               and_then (finalizeUpload h uploadUrl fileSize mimeType u8array w1) (\<lambda>fileUri w2.
               generate h settings key mimeType fileUri w2)))"

text \<open>Lines 61 to 181, the \<open>try\<close> block.\<close>

definition convert_try ::
    "host \<Rightarrow> PDF2MDSettings \<Rightarrow> tfile \<Rightarrow> world \<Rightarrow> unit flow \<times> world" where
  "convert_try h settings file w =
     and_then (produce_markdown h settings file w) (\<lambda>markdown w'. writeOutput file markdown w')"

text \<open>
  Lines 59 to 186: the first notice, the \<open>try\<close> block and the \<open>catch\<close> clause. The method
  returns nothing; the model returns, beside the final state, how the \<open>try\<close> block ended.
\<close>

definition convertFile :: "host \<Rightarrow> PDF2MDSettings \<Rightarrow> tfile \<Rightarrow> world \<Rightarrow> unit flow \<times> world" where
  "convertFile h settings file w =
     (case convert_try h settings file (Notice (''Converting '' @ name file @ '' to Markdown...'') w) of
        (Throw error, w') \<Rightarrow> (Throw error, Notice (''Error converting file: '' @ message error) w')
      | r \<Rightarrow> r)"

subsection \<open>Vocabulary of the specification\<close>

text \<open>
  The specification's \<open>wrap\<close>: the text between the fence \<open>```markdown\<close> with a line feed
  and a line feed with the closing fence.
\<close>

definition wrap :: "string \<Rightarrow> string" where
  "wrap t = ''```markdown'' @ [LF] @ t @ [LF] @ ''```''"

text \<open>
  The fence markers: at the start the three backticks, the optional tag, an optional
  carriage return and an optional line feed; at the end an optional carriage return and
  an optional line feed before the three backticks.
\<close>

definition leading_markers :: "string list" where
  "leading_markers =
     [fence @ tag @ cr @ lf. tag \<leftarrow> [[], ''markdown''], cr \<leftarrow> [[], [CR]], lf \<leftarrow> [[], [LF]]]"

definition trailing_markers :: "string list" where
  "trailing_markers = [cr @ lf @ fence. cr \<leftarrow> [[], [CR]], lf \<leftarrow> [[], [LF]]]"

text \<open>The eight spellings of \<open>.pdf\<close> in upper and lower case.\<close>

definition dot_pdf_spellings :: "string list" where
  "dot_pdf_spellings =
     [''.pdf'', ''.pdF'', ''.pDf'', ''.pDF'', ''.Pdf'', ''.PdF'', ''.PDf'', ''.PDF'']"

text \<open>
  The notices that report a failure are those of lines 72, 94, 103, 122, 132, 159 and
  184; each is recognised by its fixed beginning. The other notices report progress.
\<close>

definition failure_beginnings :: "string list" where
  "failure_beginnings =
     [''Please set your API key in plugin settings.'',
      ''Upload start failed: '',
      ''No upload URL returned'',
      ''Upload content failed: '',
      ''No file URI returned'',
      ''Generate content failed: '',
      ''Error converting file: '']"

definition is_failure_notice :: "string \<Rightarrow> bool" where
  "is_failure_notice msg \<longleftrightarrow> list_ex (\<lambda>b. prefix b msg) failure_beginnings"

definition failure_notices :: "world \<Rightarrow> string list" where
  "failure_notices w = filter is_failure_notice (notices w)"

subsection \<open>What a stage may change\<close>

text \<open>
  A stage keeps the vault; it adds one failure notice when it leaves by \<open>return\<close> and
  none otherwise.
\<close>

definition keeps_vault :: "world \<Rightarrow> 'a flow \<times> world \<Rightarrow> bool" where
  "keeps_vault w r \<longleftrightarrow>
     vault (snd r) = vault w \<and>
     length (failure_notices (snd r)) =
       length (failure_notices w) + (if fst r = Return then 1 else 0)"

subsection \<open>Example environments\<close>

text \<open>
  A ten-byte file \<open>a/b/report.PDF\<close>, settings with a given key, and a host that answers
  the three requests with three given responses. The host parses the JSON texts that the
  examples use.
\<close>

definition pdf_bytes :: bytes where
  "pdf_bytes = [0x25, 0x50, 0x44, 0x46, 0x2D, 0x31, 0x2E, 0x37, 0x0A, 0x0A]"

definition report :: tfile where
  "report = \<lparr>name = ''report.PDF'', path = ''a/b/report.PDF''\<rparr>"

definition settings_with_key :: "string \<Rightarrow> PDF2MDSettings" where
  "settings_with_key k =
     \<lparr>apiKey = k, modelName = ''gemini-2.5'', systemPrompt = ''Convert the PDF.'',
      userPrompt = ''Please convert.'', temperature = ''0.5''\<rparr>"

definition reply :: "nat \<Rightarrow> (string \<times> string) list \<Rightarrow> string \<Rightarrow> response" where
  "reply code hs txt = \<lparr>status = code, headers_get = map_of hs, text_body = Inr txt\<rparr>"

definition scripted_fetch :: "response \<Rightarrow> response \<Rightarrow> response \<Rightarrow> request \<Rightarrow> js_error + response" where
  "scripted_fetch r1 r2 r3 req =
     (case map_of (headers req) ''X-Goog-Upload-Command'' of
        Some c \<Rightarrow> if c = ''start'' then Inr r1 else Inr r2
      | None \<Rightarrow> Inr r3)"

definition file_json :: string where
  \<open>file_json = ''{"file":{"uri":"files/abc"}}''\<close>

definition no_candidates_json :: string where
  \<open>no_candidates_json = ''{"candidates":[]}''\<close>

definition title_json :: string where
  \<open>title_json =
     ''{"candidates":[{"content":{"parts":[{"text":"```markdown'' @ [CHR 0x5C] @ ''n# Title''
     @ [CHR 0x5C] @ ''n```"}]}}]}''\<close>

definition fenced_title :: string where
  "fenced_title = ''```markdown'' @ [LF] @ ''# Title'' @ [LF] @ ''```''"

definition parse_examples :: "string \<Rightarrow> js_error + json" where
  "parse_examples s =
     (if s = file_json then
        Inr (JObject [(''file'', JObject [(''uri'', JString ''files/abc'')])])
      else if s = ''{}'' then Inr (JObject [])
      else if s = no_candidates_json then Inr (JObject [(''candidates'', JArray [])])
      else if s = title_json then
        Inr (JObject [(''candidates'', JArray [JObject [(''content'', JObject [(''parts'',
               JArray [JObject [(''text'', JString fenced_title)]])])]])])
      else Inl (SyntaxError ''Unexpected token''))"

definition example_host :: "js_error + bytes \<Rightarrow> response \<Rightarrow> response \<Rightarrow> response \<Rightarrow> host" where
  "example_host rd r1 r2 r3 =
     \<lparr>readBinary = (\<lambda>f. rd), fetch = scripted_fetch r1 r2 r3, JSON_parse = parse_examples\<rparr>"

definition session_reply :: response where
  "session_reply = reply 200 [(''x-goog-upload-url'', ''https://example/upload/123'')] []"

section \<open>Properties\<close>

declare show_nat.simps [simp del] trimStart.simps [simp del] trimEnd.simps [simp del]

subsection \<open>Replacing the leftmost match\<close>

lemma replace_first_none:
  "(\<And>t. suffix t s \<Longrightarrow> m t = None) \<Longrightarrow> replace_first m rep s = s"
  by (induction s) (auto simp: suffix_Cons)

lemma replace_first_leftmost:
  "m b = Some n \<Longrightarrow> (\<And>t. suffix t (a @ b) \<Longrightarrow> length b < length t \<Longrightarrow> m t = None)
     \<Longrightarrow> replace_first m rep (a @ b) = a @ rep @ drop n b"
proof (induction a)
  case Nil
  then show ?case by (cases b) auto
next
  case (Cons c a)
  have "m (c # a @ b) = None" using Cons.prems(2)[of "c # a @ b"] by simp
  moreover have "replace_first m rep (a @ b) = a @ rep @ drop n b"
    using Cons.IH[OF Cons.prems(1)] Cons.prems(2) by (simp add: suffix_Cons)
  ultimately show ?case by simp
qed

lemma suffix_snoc1: "suffix (c # b) (a @ b) \<longleftrightarrow> suffix [c] a"
  using same_suffix_suffix[of "[c]" b a] by simp

lemma suffix_snoc2: "suffix (c # d # b) (a @ b) \<longleftrightarrow> suffix [c, d] a"
  using same_suffix_suffix[of "[c, d]" b a] by simp

lemma suffix_snoc_mismatch: "suffix (c # d # b) (a @ e # b) \<Longrightarrow> d = e"
proof -
  assume "suffix (c # d # b) (a @ e # b)"
  then have "suffix (d # b) (a @ e # b)" by (rule suffix_ConsD)
  then have "suffix ([d] @ b) ((a @ [e]) @ b)" by simp
  then have "suffix [d] (a @ [e])" by (simp only: same_suffix_suffix)
  then show "d = e" by simp
qed

lemma trailing_fence_forms:
  "trailing_fence t = Some n \<Longrightarrow>
     (t = CR # LF # fence \<and> n = 5) \<or> (t = CR # fence \<and> n = 4) \<or> (t = LF # fence \<and> n = 4) \<or> (t = fence \<and> n = 3)"
  unfolding trailing_fence_def by (simp split: if_splits)

lemma length_fence: "length fence = 3" by (simp add: fence_def)

lemma trailing_fence_None: "\<not> suffix fence t \<Longrightarrow> trailing_fence t = None"
proof (cases "trailing_fence t")
  case (Some n)
  assume "\<not> suffix fence t"
  moreover from trailing_fence_forms[OF Some] have "suffix fence t"
    by (auto simp: suffix_Cons)
  ultimately show ?thesis by simp
qed simp

lemma strip_tail_unchanged: "\<not> suffix fence s \<Longrightarrow> replace_first trailing_fence [] s = s"
proof (rule replace_first_none)
  fix t assume "\<not> suffix fence s" "suffix t s"
  then have "\<not> suffix fence t" by (meson suffix_order.trans)
  then show "trailing_fence t = None" by (rule trailing_fence_None)
qed

lemma strip_tail_crlf: "replace_first trailing_fence [] (a @ CR # LF # fence) = a"
proof -
  have "replace_first trailing_fence [] (a @ CR # LF # fence) = a @ [] @ drop 5 (CR # LF # fence)"
  proof (rule replace_first_leftmost)
    show "trailing_fence (CR # LF # fence) = Some 5" by (simp add: trailing_fence_def)
  next
    fix t assume "suffix t (a @ CR # LF # fence)" "length (CR # LF # fence) < length t"
    then have "5 < length t" by (simp add: length_fence)
    then show "trailing_fence t = None"
      using trailing_fence_forms[of t] by (cases "trailing_fence t") (auto simp: length_fence)
  qed
  then show ?thesis by (simp add: length_fence)
qed

lemma strip_tail_cr: "replace_first trailing_fence [] (a @ CR # fence) = a"
proof -
  have "replace_first trailing_fence [] (a @ CR # fence) = a @ [] @ drop 4 (CR # fence)"
  proof (rule replace_first_leftmost)
    show "trailing_fence (CR # fence) = Some 4" by (simp add: trailing_fence_def fence_def)
  next
    fix t assume t: "suffix t (a @ CR # fence)" "length (CR # fence) < length t"
    show "trailing_fence t = None"
    proof (cases "trailing_fence t")
      case (Some n)
      then have "t = CR # LF # fence" using t(2) trailing_fence_forms[OF Some]
        by (auto simp: length_fence)
      then have "suffix (CR # LF # fence) (a @ CR # fence)" using t(1) by simp
      then have "LF = CR" by (rule suffix_snoc_mismatch)
      then show ?thesis by simp
    qed simp
  qed
  then show ?thesis by (simp add: length_fence)
qed

lemma strip_tail_lf:
  assumes "\<not> suffix [CR] a"
  shows "replace_first trailing_fence [] (a @ LF # fence) = a"
proof -
  have "replace_first trailing_fence [] (a @ LF # fence) = a @ [] @ drop 4 (LF # fence)"
  proof (rule replace_first_leftmost)
    show "trailing_fence (LF # fence) = Some 4" by (simp add: trailing_fence_def fence_def)
  next
    fix t assume t: "suffix t (a @ LF # fence)" "length (LF # fence) < length t"
    show "trailing_fence t = None"
    proof (cases "trailing_fence t")
      case (Some n)
      then have "t = CR # LF # fence" using t(2) trailing_fence_forms[OF Some]
        by (auto simp: length_fence)
      then have "suffix [CR] a" using t(1) by (simp add: suffix_snoc1)
      with assms show ?thesis by simp
    qed simp
  qed
  then show ?thesis by (simp add: length_fence)
qed

lemma strip_tail_bare:
  assumes "\<not> suffix [CR] a" "\<not> suffix [LF] a"
  shows "replace_first trailing_fence [] (a @ fence) = a"
proof -
  have "replace_first trailing_fence [] (a @ fence) = a @ [] @ drop 3 fence"
  proof (rule replace_first_leftmost)
    show "trailing_fence fence = Some 3" by (simp add: trailing_fence_def fence_def)
  next
    fix t assume t: "suffix t (a @ fence)" "length fence < length t"
    show "trailing_fence t = None"
    proof (cases "trailing_fence t")
      case (Some n)
      then consider "t = CR # LF # fence" | "t = CR # fence" | "t = LF # fence"
        using t(2) trailing_fence_forms[OF Some] by (auto simp: length_fence)
      then have "suffix [CR] a \<or> suffix [LF] a"
      proof cases
        case 1
        then have "suffix [CR, LF] a" using t(1) by (simp add: suffix_snoc2)
        then have "suffix [LF] a" by (rule suffix_ConsD)
        then show ?thesis by simp
      next
        case 2 then show ?thesis using t(1) by (simp add: suffix_snoc1)
      next
        case 3 then show ?thesis using t(1) by (simp add: suffix_snoc1)
      qed
      with assms show ?thesis by simp
    qed simp
  qed
  then show ?thesis by (simp add: length_fence)
qed

lemma strip_tail_split:
  "\<exists>trail. s = replace_first trailing_fence [] s @ trail
     \<and> trail \<in> set ([] # trailing_markers)
     \<and> (trail = [] \<longleftrightarrow> \<not> suffix fence s)
     \<and> (\<forall>m \<in> set trailing_markers. suffix m s \<longrightarrow> length m \<le> length trail)"
proof (cases "suffix fence s")
  case False
  then have "replace_first trailing_fence [] s = s" by (rule strip_tail_unchanged)
  moreover have "\<not> suffix m s" if "m \<in> set trailing_markers" for m
  proof
    assume "suffix m s"
    moreover have "suffix fence m" using that by (auto simp: trailing_markers_def suffix_Cons)
    ultimately have "suffix fence s" by (meson suffix_order.trans)
    with False show False by simp
  qed
  ultimately show ?thesis using False by auto
next
  case sf: True
  then obtain a where a: "s = a @ fence" by (auto simp: suffix_def)
  have fence_ne: "fence \<noteq> []" by (simp add: fence_def)
  show ?thesis
  proof (cases "suffix [LF] a")
    case lf: True
    then obtain b where b: "a = b @ [LF]" by (auto simp: suffix_def)
    show ?thesis
    proof (cases "suffix [CR] b")
      case True
      then obtain c where c: "b = c @ [CR]" by (auto simp: suffix_def)
      have "replace_first trailing_fence [] s = c" using strip_tail_crlf[of c] by (simp add: a b c)
      then show ?thesis using a b c sf fence_ne
        by (simp add: trailing_markers_def length_fence)
    next
      case False
      have "replace_first trailing_fence [] s = b" using strip_tail_lf[OF False] by (simp add: a b)
      moreover have "\<not> suffix (CR # LF # fence) s" using False by (simp add: a b suffix_snoc2 suffix_snoc1)
      ultimately show ?thesis using a b sf fence_ne
        by (simp add: trailing_markers_def length_fence)
    qed
  next
    case nlf: False
    show ?thesis
    proof (cases "suffix [CR] a")
      case cr: True
      then obtain b where b: "a = b @ [CR]" by (auto simp: suffix_def)
      have "replace_first trailing_fence [] s = b" using strip_tail_cr[of b] by (simp add: a b)
      moreover have "\<not> suffix (CR # LF # fence) s"
      proof
        assume "suffix (CR # LF # fence) s"
        then have "suffix (CR # LF # fence) (b @ CR # fence)" by (simp add: a b)
        then have "LF = CR" by (rule suffix_snoc_mismatch)
        then show False by simp
      qed
      ultimately show ?thesis using a b sf fence_ne
        by (simp add: trailing_markers_def length_fence)
    next
      case False
      have "replace_first trailing_fence [] s = a" using strip_tail_bare[OF False nlf] by (simp add: a)
      moreover have "\<not> suffix (CR # fence) s" using False by (simp add: a suffix_snoc1)
      moreover have "\<not> suffix (LF # fence) s" using nlf by (simp add: a suffix_snoc1)
      moreover have "\<not> suffix (CR # LF # fence) s" using calculation(3) suffix_ConsD by metis
      ultimately show ?thesis using a sf fence_ne
        by (simp add: trailing_markers_def length_fence)
    qed
  qed
qed

lemma leading_fence_None: "\<not> prefix fence x \<Longrightarrow> replace_at_start leading_fence [] x = x"
  by (simp add: replace_at_start_def leading_fence_def)

lemma leading_fence_decomp:
  assumes "prefix fence x"
  shows "\<exists>tag cr lf rest. x = fence @ tag @ cr @ lf @ rest
           \<and> tag \<in> {[], ''markdown''} \<and> cr \<in> {[], [CR]} \<and> lf \<in> {[], [LF]}
           \<and> (tag = [] \<longrightarrow> \<not> prefix ''markdown'' (cr @ lf @ rest))
           \<and> (cr = [] \<longrightarrow> \<not> prefix [CR] (lf @ rest))
           \<and> (lf = [] \<longrightarrow> \<not> prefix [LF] rest)
           \<and> replace_at_start leading_fence [] x = rest"
proof -
  from assms obtain r1 where r1: "x = fence @ r1" by (auto simp: prefix_def)
  define tag where "tag = (if prefix ''markdown'' r1 then ''markdown'' else [])"
  define r2 where "r2 = drop (length tag) r1"
  define cr where "cr = (if prefix [CR] r2 then [CR] else [])"
  define r3 where "r3 = drop (length cr) r2"
  define lf where "lf = (if prefix [LF] r3 then [LF] else [])"
  define rest where "rest = drop (length lf) r3"
  have e1: "r1 = tag @ r2" unfolding tag_def r2_def by (auto simp: prefix_def)
  have e2: "r2 = cr @ r3" unfolding cr_def r3_def by (auto simp: prefix_def)
  have e3: "r3 = lf @ rest" unfolding lf_def rest_def by (auto simp: prefix_def)
  have x: "x = fence @ tag @ cr @ lf @ rest" using r1 e1 e2 e3 by simp
  have d3: "drop 3 x = r1" by (simp add: r1 length_fence)
  have n1: "tag = [] \<longrightarrow> \<not> prefix ''markdown'' (cr @ lf @ rest)"
    using e1 e2 e3 unfolding tag_def by (auto split: if_splits)
  have n2: "cr = [] \<longrightarrow> \<not> prefix [CR] (lf @ rest)"
    using e2 e3 unfolding cr_def by (auto split: if_splits)
  have n3: "lf = [] \<longrightarrow> \<not> prefix [LF] rest"
    using e3 unfolding lf_def by (auto split: if_splits)
  have lt: "length tag = (if prefix ''markdown'' r1 then 8 else 0)" by (simp add: tag_def)
  have lc: "length cr = (if prefix [CR] r2 then 1 else 0)" by (simp add: cr_def)
  have ll: "length lf = (if prefix [LF] r3 then 1 else 0)" by (simp add: lf_def)
  have dr2: "drop (3 + length tag) x = r2" by (simp add: r1 length_fence r2_def)
  have dr3: "drop (3 + length tag + length cr) x = r3"
    by (simp add: r1 length_fence r2_def r3_def add.commute)
  have "leading_fence x = Some (3 + length tag + length cr + length lf)"
    unfolding leading_fence_def using assms d3 dr2 dr3 lt lc ll
    by (simp add: Let_def)
  moreover have "drop (3 + length tag + length cr + length lf) x = rest"
    by (simp add: x length_fence)
  ultimately have "replace_at_start leading_fence [] x = rest"
    by (simp add: replace_at_start_def)
  moreover have "tag \<in> {[], ''markdown''}" "cr \<in> {[], [CR]}" "lf \<in> {[], [LF]}"
    by (simp_all add: tag_def cr_def lf_def)
  ultimately show ?thesis using x n1 n2 n3 by blast
qed

lemma leading_markers_iff:
  "m \<in> set leading_markers \<longleftrightarrow>
     (\<exists>t'\<in>{[], ''markdown''}. \<exists>c'\<in>{[], [CR]}. \<exists>l'\<in>{[], [LF]}. m = fence @ t' @ c' @ l')"
  by (simp add: leading_markers_def)

lemma newline_prefix_max:
  assumes "cr = [] \<longrightarrow> \<not> prefix [CR] (lf @ rest)" "lf = [] \<longrightarrow> \<not> prefix [LF] rest"
      and "cr \<in> {[], [CR]}" "lf \<in> {[], [LF]}" "c' \<in> {[], [CR]}" "l' \<in> {[], [LF]}"
      and "prefix (c' @ l') (cr @ lf @ rest)"
  shows "length (c' @ l') \<le> length (cr @ lf)"
proof -
  have "prefix [CR] r" if "prefix [CR, LF] r" for r
    using that append_prefixD[of "[CR]" "[LF]" r] by simp
  then show ?thesis using assms by auto
qed

lemma marker_prefix_max:
  assumes n1: "tag = [] \<longrightarrow> \<not> prefix ''markdown'' (cr @ lf @ rest)"
      and n2: "cr = [] \<longrightarrow> \<not> prefix [CR] (lf @ rest)"
      and n3: "lf = [] \<longrightarrow> \<not> prefix [LF] rest"
      and t: "tag \<in> {[], ''markdown''}" and c: "cr \<in> {[], [CR]}" and l: "lf \<in> {[], [LF]}"
      and m: "m \<in> set leading_markers" and p: "prefix m (fence @ tag @ cr @ lf @ rest)"
  shows "length m \<le> length (fence @ tag @ cr @ lf)"
proof -
  from m obtain t' c' l' where m': "m = fence @ t' @ c' @ l'"
    and t': "t' \<in> {[], ''markdown''}" and c': "c' \<in> {[], [CR]}" and l': "l' \<in> {[], [LF]}"
    unfolding leading_markers_iff by blast
  from p have p': "prefix (t' @ c' @ l') (tag @ cr @ lf @ rest)" by (simp add: m')
  show ?thesis
  proof (cases "t' = tag")
    case True
    with p' have "prefix (c' @ l') (cr @ lf @ rest)" by simp
    from newline_prefix_max[OF n2 n3 c l c' l' this] show ?thesis by (simp add: m' True)
  next
    case False
    show ?thesis
    proof (cases "tag = []")
      case True
      with False t' have "t' = ''markdown''" by auto
      with p' True have "prefix (''markdown'' @ c' @ l') (cr @ lf @ rest)" by simp
      then have "prefix ''markdown'' (cr @ lf @ rest)" by (rule append_prefixD)
      with n1 True show ?thesis by simp
    next
      case nonempty: False
      with t have "tag = ''markdown''" by simp
      moreover from this False t' have "t' = []" by auto
      ultimately show ?thesis using c' l' by (auto simp: m')
    qed
  qed
qed

lemma strip_head_split:
  "\<exists>lead. x = lead @ replace_at_start leading_fence [] x
     \<and> lead \<in> set ([] # leading_markers)
     \<and> (lead = [] \<longleftrightarrow> \<not> prefix fence x)
     \<and> (\<forall>m \<in> set leading_markers. prefix m x \<longrightarrow> length m \<le> length lead)"
proof (cases "prefix fence x")
  case False
  have "\<not> prefix m x" if "m \<in> set leading_markers" for m
  proof
    assume "prefix m x"
    moreover have "prefix fence m" using that by (auto simp: leading_markers_def)
    ultimately have "prefix fence x" by (meson prefix_order.trans)
    with False show False by simp
  qed
  then show ?thesis using False leading_fence_None[OF False] by auto
next
  case True
  from leading_fence_decomp[OF True] obtain tag cr lf rest where
    x: "x = fence @ tag @ cr @ lf @ rest"
    and t: "tag \<in> {[], ''markdown''}" and c: "cr \<in> {[], [CR]}" and l: "lf \<in> {[], [LF]}"
    and n1: "tag = [] \<longrightarrow> \<not> prefix ''markdown'' (cr @ lf @ rest)"
    and n2: "cr = [] \<longrightarrow> \<not> prefix [CR] (lf @ rest)"
    and n3: "lf = [] \<longrightarrow> \<not> prefix [LF] rest"
    and r: "replace_at_start leading_fence [] x = rest" by blast
  let ?lead = "fence @ tag @ cr @ lf"
  have 1: "x = ?lead @ replace_at_start leading_fence [] x" using x r by simp
  have 2: "?lead \<in> set ([] # leading_markers)" using t c l by (auto simp: leading_markers_def)
  have 3: "?lead \<noteq> []" by (simp add: fence_def)
  have 4: "\<forall>m \<in> set leading_markers. prefix m x \<longrightarrow> length m \<le> length ?lead"
    using marker_prefix_max[OF n1 n2 n3 t c l] x by blast
  show ?thesis using 1 2 3 4 True by blast
qed

lemma strip_split:
  "\<exists>lead trail. x = lead @ strip x @ trail
     \<and> lead \<in> set ([] # leading_markers) \<and> trail \<in> set ([] # trailing_markers)
     \<and> (lead = [] \<longleftrightarrow> \<not> prefix fence x)
     \<and> (trail = [] \<longleftrightarrow> \<not> suffix fence (drop (length lead) x))
     \<and> (\<forall>m \<in> set leading_markers. prefix m x \<longrightarrow> length m \<le> length lead)
     \<and> (\<forall>m \<in> set trailing_markers. suffix m (drop (length lead) x) \<longrightarrow> length m \<le> length trail)"
proof -
  let ?h = "replace_at_start leading_fence [] x"
  from strip_head_split[of x] obtain lead where
    h1: "x = lead @ ?h" and h2: "lead \<in> set ([] # leading_markers)"
    and h3: "lead = [] \<longleftrightarrow> \<not> prefix fence x"
    and h4: "\<forall>m \<in> set leading_markers. prefix m x \<longrightarrow> length m \<le> length lead" by blast
  from strip_tail_split[of ?h] obtain trail where
    t1: "?h = replace_first trailing_fence [] ?h @ trail" and t2: "trail \<in> set ([] # trailing_markers)"
    and t3: "trail = [] \<longleftrightarrow> \<not> suffix fence ?h"
    and t4: "\<forall>m \<in> set trailing_markers. suffix m ?h \<longrightarrow> length m \<le> length trail" by blast
  have d: "drop (length lead) x = ?h" by (metis h1 append_eq_conv_conj)
  have "x = lead @ strip x @ trail" unfolding strip_def using h1 t1 by simp
  then show ?thesis using h2 h3 h4 t2 t3 t4 d by metis
qed

lemma strip_fixed_iff: "strip y = y \<longleftrightarrow> \<not> prefix fence y \<and> \<not> suffix fence y"
proof
  assume "\<not> prefix fence y \<and> \<not> suffix fence y"
  then show "strip y = y"
    by (simp add: strip_def leading_fence_None strip_tail_unchanged)
next
  assume fx: "strip y = y"
  from strip_split[of y] obtain lead trail where
    s: "y = lead @ strip y @ trail" and l: "lead = [] \<longleftrightarrow> \<not> prefix fence y"
    and t: "trail = [] \<longleftrightarrow> \<not> suffix fence (drop (length lead) y)" by blast
  from s have "length y = length lead + length (strip y) + length trail" by (metis length_append add.assoc)
  with fx have "lead = [] \<and> trail = []" by simp
  with l t show "\<not> prefix fence y \<and> \<not> suffix fence y" by simp
qed

lemma strip_wrap: "strip (wrap t) = (if suffix [CR] t then butlast t else t)"
proof -
  have w: "wrap t = fence @ ''markdown'' @ [] @ [LF] @ (t @ LF # fence)"
    by (simp add: wrap_def fence_def)
  have "prefix fence (wrap t)" by (simp add: wrap_def fence_def)
  have h: "replace_at_start leading_fence [] (wrap t) = t @ LF # fence"
    by (simp add: replace_at_start_def leading_fence_def wrap_def fence_def)
  show ?thesis
  proof (cases "suffix [CR] t")
    case True
    then obtain u where u: "t = u @ [CR]" by (auto simp: suffix_def)
    have "strip (wrap t) = replace_first trailing_fence [] (t @ LF # fence)"
      by (simp add: strip_def h)
    also have "\<dots> = replace_first trailing_fence [] (u @ CR # LF # fence)" by (simp add: u)
    also have "\<dots> = u" by (rule strip_tail_crlf)
    finally show ?thesis using True by (simp add: u)
  next
    case False
    then show ?thesis by (simp add: strip_def h strip_tail_lf)
  qed
qed

subsection \<open>The pattern of the output path\<close>

lemma dot_pdf_iff: "dot_pdf s = Some n \<longleftrightarrow> s \<in> set dot_pdf_spellings \<and> n = 4"
  by (auto simp: dot_pdf_def dot_pdf_spellings_def split: list.splits)

lemma dot_pdf_length: "dot_pdf s = Some n \<Longrightarrow> length s = 4"
  by (auto simp: dot_pdf_def split: list.splits if_splits)

lemma outputPath_match:
  assumes "ext \<in> set dot_pdf_spellings"
  shows "outputPath (stem @ ext) = stem @ ''.md''"
proof -
  have l: "length ext = 4" using assms by (auto simp: dot_pdf_spellings_def)
  have "replace_first dot_pdf ''.md'' (stem @ ext) = stem @ ''.md'' @ drop 4 ext"
  proof (rule replace_first_leftmost)
    show "dot_pdf ext = Some 4" using assms by (simp add: dot_pdf_iff)
  next
    fix t :: string assume "length ext < length t"
    then have "length t \<noteq> 4" using l by simp
    then show "dot_pdf t = None" using dot_pdf_length[of t] by (cases "dot_pdf t") auto
  qed
  then show ?thesis using l by (simp add: outputPath_def)
qed

lemma outputPath_no_match:
  assumes "\<forall>e \<in> set dot_pdf_spellings. \<not> suffix e p"
  shows "outputPath p = p"
  unfolding outputPath_def
proof (rule replace_first_none)
  fix t assume "suffix t p"
  with assms have "t \<notin> set dot_pdf_spellings" by blast
  then show "dot_pdf t = None" using dot_pdf_iff[of t] by (cases "dot_pdf t") auto
qed

subsection \<open>What each stage does to the notices and to the vault\<close>

lemma failure_notices_Notice:
  "failure_notices (Notice msg w) =
     failure_notices w @ (if is_failure_notice msg then [msg] else [])"
  by (simp add: failure_notices_def Notice_def)

lemma failure_notices_sent: "failure_notices (sent req w) = failure_notices w"
  by (simp add: failure_notices_def sent_def)

lemma vault_Notice: "vault (Notice msg w) = vault w"
  by (simp add: Notice_def)

lemma vault_sent: "vault (sent req w) = vault w"
  by (simp add: sent_def)

lemmas effect_simps =
  failure_notices_Notice failure_notices_sent vault_Notice vault_sent
  is_failure_notice_def failure_beginnings_def

lemma startUpload_keeps: "keeps_vault w (startUpload h key fileSize mimeType displayName w)"
  by (simp add: keeps_vault_def startUpload_def Let_def effect_simps
           split: sum.splits option.splits)

lemma finalizeUpload_keeps: "keeps_vault w (finalizeUpload h uploadUrl fileSize mimeType u8array w)"
  by (simp add: keeps_vault_def finalizeUpload_def Let_def effect_simps
           split: sum.splits option.splits)

lemma generate_keeps: "keeps_vault w (generate h settings key mimeType fileUri w)"
  by (simp add: keeps_vault_def generate_def Let_def effect_simps
           split: sum.splits option.splits)

lemma and_then_keeps:
  assumes "keeps_vault w r" and "\<And>x w1. keeps_vault w1 (k x w1)"
  shows "keeps_vault w (and_then r k)"
proof (cases r)
  case (Pair fl w1)
  show ?thesis
  proof (cases fl)
    case (Continue x)
    with Pair assms(1) assms(2)[of w1 x] show ?thesis
      by (simp add: keeps_vault_def and_then_def)
  next
    case Return
    with Pair assms(1) show ?thesis by (simp add: keeps_vault_def and_then_def)
  next
    case (Throw e)
    with Pair assms(1) show ?thesis by (simp add: keeps_vault_def and_then_def)
  qed
qed

lemma produce_markdown_keeps: "keeps_vault w (produce_markdown h settings file w)"
proof (cases "readBinary h file")
  case (Inl e)
  then show ?thesis by (simp add: produce_markdown_def keeps_vault_def)
next
  case (Inr u8array)
  show ?thesis
  proof (cases "trim (apiKey settings) = []")
    case True
    with Inr show ?thesis by (simp add: produce_markdown_def keeps_vault_def effect_simps)
  next
    case False
    with Inr show ?thesis
      by (simp add: produce_markdown_def Let_def)
         (intro and_then_keeps startUpload_keeps finalizeUpload_keeps generate_keeps)
  qed
qed

lemma writeOutput_effect:
  "fst (writeOutput file markdown w) \<noteq> Return
   \<and> failure_notices (snd (writeOutput file markdown w)) = failure_notices w
   \<and> (fst (writeOutput file markdown w) \<noteq> Continue () \<longrightarrow>
        vault (snd (writeOutput file markdown w)) = vault w)"
  by (simp add: writeOutput_def Let_def create_def modify_def effect_simps
                failure_notices_def Notice_def
           split: option.splits entry.splits)

lemma convert_try_effect:
  "length (failure_notices (snd (convert_try h settings file w))) =
     length (failure_notices w) + (if fst (convert_try h settings file w) = Return then 1 else 0)
   \<and> (fst (convert_try h settings file w) \<noteq> Continue () \<longrightarrow>
        vault (snd (convert_try h settings file w)) = vault w)"
proof (cases "produce_markdown h settings file w")
  case (Pair fl w1)
  have k: "keeps_vault w (fl, w1)" using produce_markdown_keeps[of w h settings "file"] Pair by simp
  show ?thesis
  proof (cases fl)
    case (Continue markdown)
    with Pair k writeOutput_effect[of "file" markdown w1] show ?thesis
      by (simp add: convert_try_def and_then_def keeps_vault_def)
  next
    case Return
    with Pair k show ?thesis by (simp add: convert_try_def and_then_def keeps_vault_def)
  next
    case (Throw e)
    with Pair k show ?thesis by (simp add: convert_try_def and_then_def keeps_vault_def)
  qed
qed

lemma convertFile_effect:
  assumes "fst (convertFile h settings file w) \<noteq> Continue ()"
  shows "length (failure_notices (snd (convertFile h settings file w))) = length (failure_notices w) + 1
         \<and> vault (snd (convertFile h settings file w)) = vault w"
proof -
  let ?w0 = "Notice (''Converting '' @ name file @ '' to Markdown...'') w"
  have w0: "failure_notices ?w0 = failure_notices w" "vault ?w0 = vault w"
    by (simp_all add: effect_simps)
  obtain fl w1 where r: "convert_try h settings file ?w0 = (fl, w1)" by (cases "convert_try h settings file ?w0")
  from convert_try_effect[of h settings "file" ?w0] r w0
  have e: "length (failure_notices w1) = length (failure_notices w) + (if fl = Return then 1 else 0)"
          "fl \<noteq> Continue () \<longrightarrow> vault w1 = vault w" by simp_all
  show ?thesis
  proof (cases fl)
    case (Continue u)
    with assms r show ?thesis by (simp add: convertFile_def)
  next
    case Return
    with r e show ?thesis by (simp add: convertFile_def)
  next
    case (Throw err)
    with r e show ?thesis by (simp add: convertFile_def effect_simps)
  qed
qed

subsection \<open>\<open>trim\<close> on a blank string\<close>

lemma white_space_nonempty: "ws \<in> set white_space \<Longrightarrow> ws \<noteq> []"
  by (auto simp: white_space_def)

lemma white_space_length:
  "ws \<in> set white_space \<Longrightarrow>
     length ws = (if hd ws = CHR 0xC2 then 2
                  else if hd ws \<in> {CHR 0xE1, CHR 0xE2, CHR 0xE3, CHR 0xEF} then 3 else 1)"
  by (auto simp: white_space_def)

lemma white_space_prefix_unique:
  assumes a: "a \<in> set white_space" and b: "b \<in> set white_space" and p: "prefix a (b @ r)"
  shows "a = b"
proof -
  from a b have ne: "a \<noteq> []" "b \<noteq> []" by (simp_all add: white_space_nonempty)
  from p obtain z where z: "b @ r = a @ z" by (auto simp: prefix_def)
  with ne have "hd a = hd b" by (metis hd_append2)
  with white_space_length[OF a] white_space_length[OF b] have "length a = length b" by simp
  with z show ?thesis by (metis append_eq_append_conv)
qed

lemma trimStart_Nil: "trimStart [] = []"
proof -
  have "find (\<lambda>ws. prefix ws []) white_space = None"
    using white_space_nonempty by (auto simp: find_None_iff)
  then show ?thesis by (simp add: trimStart.simps)
qed

lemma trimEnd_Nil: "trimEnd [] = []"
proof -
  have "find (\<lambda>ws. suffix ws []) white_space = None"
    using white_space_nonempty by (auto simp: find_None_iff)
  then show ?thesis by (simp add: trimEnd.simps)
qed

lemma trimStart_white:
  assumes "b \<in> set white_space"
  shows "trimStart (b @ r) = trimStart r"
proof -
  have "find (\<lambda>ws. prefix ws (b @ r)) white_space \<noteq> None"
    using assms by (auto simp: find_None_iff)
  then obtain a where f: "find (\<lambda>ws. prefix ws (b @ r)) white_space = Some a" by blast
  then have "a \<in> set white_space" "prefix a (b @ r)" by (auto simp: find_Some_iff)
  with assms have "a = b" by (simp add: white_space_prefix_unique)
  with f show ?thesis by (simp add: trimStart.simps[of "b @ r"])
qed

lemma trim_blank: "set ws \<subseteq> set white_space \<Longrightarrow> trim (concat ws) = []"
proof -
  assume "set ws \<subseteq> set white_space"
  then have "trimStart (concat ws) = []"
    by (induction ws) (simp_all add: trimStart_Nil trimStart_white)
  then show ?thesis by (simp add: trim_def trimEnd_Nil)
qed

subsection \<open>Evaluating the examples\<close>

lemma trim_k: "trim ''k'' = ''k''"
  by (simp add: trim_def trimStart.simps trimEnd.simps white_space_def suffix_to_prefix)

lemma show_nat_500: "show_nat 500 = ''500''"
  by (simp add: show_nat.simps)

lemma length_pdf_bytes: "length pdf_bytes = 10"
  by (simp add: pdf_bytes_def)

lemma scripted_fetch_start:
  "scripted_fetch r1 r2 r3 (start_request k n m d) = Inr r1"
  by (simp add: scripted_fetch_def start_request_def)

lemma scripted_fetch_upload:
  "scripted_fetch r1 r2 r3 (upload_request u n m b) = Inr r2"
  by (simp add: scripted_fetch_def upload_request_def)

lemma scripted_fetch_generate:
  "scripted_fetch r1 r2 r3 (generate_request s k m u) = Inr r3"
  by (simp add: scripted_fetch_def generate_request_def)

lemma ok_reply: "ok (reply code hs txt) \<longleftrightarrow> 200 \<le> code \<and> code \<le> 299"
  by (simp add: ok_def reply_def)

lemma reply_fields:
  "status (reply code hs txt) = code"
  "headers_get (reply code hs txt) = map_of hs"
  "text_body (reply code hs txt) = Inr txt"
  by (simp_all add: reply_def)

lemma parse_examples_values:
  "parse_examples file_json = Inr (JObject [(''file'', JObject [(''uri'', JString ''files/abc'')])])"
  "parse_examples ''{}'' = Inr (JObject [])"
  "parse_examples no_candidates_json = Inr (JObject [(''candidates'', JArray [])])"
  "parse_examples title_json =
     Inr (JObject [(''candidates'', JArray [JObject [(''content'', JObject [(''parts'',
            JArray [JObject [(''text'', JString fenced_title)]])])]])])"
  by (simp_all add: parse_examples_def file_json_def no_candidates_json_def title_json_def)

lemma host_fields:
  "readBinary (example_host rd r1 r2 r3) f = rd"
  "fetch (example_host rd r1 r2 r3) = scripted_fetch r1 r2 r3"
  "JSON_parse (example_host rd r1 r2 r3) = parse_examples"
  by (simp_all add: example_host_def)

lemma settings_fields:
  "apiKey (settings_with_key k) = k"
  "modelName (settings_with_key k) = ''gemini-2.5''"
  by (simp_all add: settings_with_key_def)

lemma report_fields: "name report = ''report.PDF''" "path report = ''a/b/report.PDF''"
  by (simp_all add: report_def)

lemma startUpload_example:
  "startUpload (example_host rd session_reply r2 r3) ''k'' 10 ''application/pdf'' ''report.PDF'' w =
     (Continue ''https://example/upload/123'',
      Notice ''Upload session started''
        (sent (start_request ''k'' 10 ''application/pdf'' ''report.PDF'') w))"
  by (simp add: startUpload_def Let_def host_fields scripted_fetch_start session_reply_def
                reply_fields ok_reply or_else_def)

lemma finalizeUpload_example:
  "finalizeUpload (example_host rd r1 (reply 200 [] file_json) r3)
       ''https://example/upload/123'' 10 ''application/pdf'' pdf_bytes w =
     (Continue (JString ''files/abc''),
      Notice ''File uploaded successfully''
        (sent (upload_request ''https://example/upload/123'' 10 ''application/pdf'' pdf_bytes)
           (Notice ''Uploading file...'' w)))"
  by (simp add: finalizeUpload_def Let_def host_fields scripted_fetch_upload
                reply_fields ok_reply parse_examples_values)

lemma finalizeUpload_empty_object:
  "finalizeUpload (example_host rd r1 (reply 200 [] ''{}'') r3)
       ''https://example/upload/123'' 10 ''application/pdf'' pdf_bytes w =
     (Throw (cannot_read ''undefined'' ''uri''),
      Notice ''File uploaded successfully''
        (sent (upload_request ''https://example/upload/123'' 10 ''application/pdf'' pdf_bytes)
           (Notice ''Uploading file...'' w)))"
  by (simp add: finalizeUpload_def Let_def host_fields scripted_fetch_upload
                reply_fields ok_reply parse_examples_values)

lemma generate_no_candidates:
  "generate (example_host rd r1 r2 (reply 200 [] no_candidates_json)) s ''k'' ''application/pdf''
       (JString ''files/abc'') w =
     (Throw (Error ''No candidates returned''),
      Notice ''API response received, generating markdown...''
        (sent (generate_request s ''k'' ''application/pdf'' (JString ''files/abc''))
           (Notice ''Waiting for API response...'' w)))"
  by (simp add: generate_def Let_def host_fields scripted_fetch_generate
                reply_fields ok_reply parse_examples_values candidate_text_def show_nat.simps)

lemma strip_title: "strip fenced_title = ''# Title''"
  using strip_wrap[of "''# Title''"] by (simp add: wrap_def fenced_title_def suffix_to_prefix)

lemma generate_title:
  "generate (example_host rd r1 r2 (reply 200 [] title_json)) s ''k'' ''application/pdf''
       (JString ''files/abc'') w =
     (Continue ''# Title'',
      Notice ''API response received, generating markdown...''
        (sent (generate_request s ''k'' ''application/pdf'' (JString ''files/abc''))
           (Notice ''Waiting for API response...'' w)))"
  by (simp add: generate_def Let_def host_fields scripted_fetch_generate
                reply_fields ok_reply parse_examples_values candidate_text_def show_nat.simps
                strip_title)

subsection \<open>The fence post-processor\<close>

text \<open>
  C1, as amended. A second application of \<open>strip\<close> changes nothing exactly when the first
  result neither begins nor ends with three backticks. A result can do so: when the text
  inside the outer fences itself begins or ends with a fence, the second application
  removes that inner marker.
\<close>

theorem strip_twice_iff:
  "strip (strip x) = strip x \<longleftrightarrow> \<not> prefix fence (strip x) \<and> \<not> suffix fence (strip x)"
  by (rule strip_fixed_iff)

theorem strip_twice_iff_witness:
  "strip (strip (wrap ''# Title'')) = strip (wrap ''# Title'')
   \<and> \<not> prefix fence (strip (wrap ''# Title'')) \<and> \<not> suffix fence (strip (wrap ''# Title''))"
proof -
  have s: "strip (wrap ''# Title'') = ''# Title''"
    by (simp add: strip_wrap suffix_to_prefix)
  have n: "\<not> prefix fence (strip (wrap ''# Title'')) \<and> \<not> suffix fence (strip (wrap ''# Title''))"
    unfolding s by (simp add: fence_def suffix_to_prefix)
  with strip_twice_iff [of "wrap ''# Title''"] show ?thesis by blast
qed

theorem strip_not_idempotent:
  "strip (strip (''```markdown'' @ [LF] @ ''```js'' @ [LF] @ ''code'' @ [LF] @ ''```'' @ [LF] @ ''```''))
   \<noteq> strip (''```markdown'' @ [LF] @ ''```js'' @ [LF] @ ''code'' @ [LF] @ ''```'' @ [LF] @ ''```'')"
proof -
  have 1: "strip (''```markdown'' @ [LF] @ ''```js'' @ [LF] @ ''code'' @ [LF] @ ''```'' @ [LF] @ ''```'')
             = ''```js'' @ [LF] @ ''code'' @ [LF] @ ''```''"
    by (simp add: strip_def replace_at_start_def leading_fence_def trailing_fence_def fence_def)
  have 2: "strip (''```js'' @ [LF] @ ''code'' @ [LF] @ ''```'') = ''js'' @ [LF] @ ''code''"
    by (simp add: strip_def replace_at_start_def leading_fence_def trailing_fence_def fence_def)
  show ?thesis by (simp only: 1 2) simp
qed

text \<open>
  C2, as amended. \<open>strip (wrap t) = t\<close> for every text \<open>t\<close>, empty or not, that does not end
  with a carriage return; from a text that ends with one, the trailing pattern takes that
  carriage return along with the line feed and the fence.
\<close>

theorem strip_wrap_round_trip:
  "strip (wrap t) = (if suffix [CR] t then butlast t else t)"
  by (rule strip_wrap)

theorem strip_wrap_round_trip_witness:
  "strip (wrap (''# Title'' @ [LF] @ ''text'')) = ''# Title'' @ [LF] @ ''text''
   \<and> strip (wrap (''line'' @ [CR])) = ''line''"
  using strip_wrap_round_trip [of "''# Title'' @ [LF] @ ''text''"]
        strip_wrap_round_trip [of "''line'' @ [CR]"]
  by (simp add: suffix_to_prefix)

theorem strip_wrap_loses_carriage_return:
  "''line'' @ [CR] \<noteq> [] \<and> strip (wrap (''line'' @ [CR])) \<noteq> ''line'' @ [CR]"
  by (simp add: strip_wrap suffix_to_prefix)

text \<open>
  C3, as amended. \<open>strip x\<close> is \<open>x\<close> without a marker at its start and without a marker at
  its end, and nothing else is changed. The leading marker is removed whenever \<open>x\<close> begins
  with three backticks, whether or not a line feed follows: it is the longest of the
  three backticks, the optional tag \<open>markdown\<close>, an optional carriage return and an
  optional line feed that \<open>x\<close> begins with. The trailing marker is removed whenever what
  is left ends with three backticks, and is the longest marker that it ends with.
\<close>

theorem strip_removes_outer_markers:
  "\<exists>lead trail. x = lead @ strip x @ trail
     \<and> lead \<in> set ([] # leading_markers) \<and> trail \<in> set ([] # trailing_markers)
     \<and> (lead = [] \<longleftrightarrow> \<not> prefix fence x)
     \<and> (trail = [] \<longleftrightarrow> \<not> suffix fence (drop (length lead) x))
     \<and> (\<forall>m \<in> set leading_markers. prefix m x \<longrightarrow> length m \<le> length lead)
     \<and> (\<forall>m \<in> set trailing_markers. suffix m (drop (length lead) x) \<longrightarrow> length m \<le> length trail)"
  by (rule strip_split)

theorem strip_removes_outer_markers_witness:
  "(\<exists>lead trail. ''```abc```'' = lead @ ''abc'' @ trail
     \<and> lead \<in> set ([] # leading_markers) \<and> trail \<in> set ([] # trailing_markers)
     \<and> (lead = [] \<longleftrightarrow> \<not> prefix fence ''```abc```'')
     \<and> (trail = [] \<longleftrightarrow> \<not> suffix fence (drop (length lead) ''```abc```''))
     \<and> (\<forall>m \<in> set leading_markers. prefix m ''```abc```'' \<longrightarrow> length m \<le> length lead)
     \<and> (\<forall>m \<in> set trailing_markers. suffix m (drop (length lead) ''```abc```'') \<longrightarrow> length m \<le> length trail))"
proof -
  have "strip ''```abc```'' = ''abc''"
    by (simp add: strip_def replace_at_start_def leading_fence_def trailing_fence_def fence_def)
  with strip_removes_outer_markers [of "''```abc```''"] show ?thesis by simp
qed

theorem strip_removes_fence_without_newline:
  "LF \<notin> set ''```abc'' \<and> CR \<notin> set ''```abc'' \<and> strip ''```abc'' = ''abc''"
  by (simp add: strip_def replace_at_start_def leading_fence_def trailing_fence_def fence_def)

subsection \<open>The output path\<close>

text \<open>
  C9. A path that ends with \<open>.pdf\<close> in any mix of upper and lower case is mapped to the
  path with \<open>.md\<close> in place of these four characters, whatever comes before them; a path
  that does not end so is mapped to itself; and \<open>a/b/report.PDF\<close> is mapped to
  \<open>a/b/report.md\<close>.
\<close>

theorem outputPath_replaces_trailing_pdf:
  "(ext \<in> set dot_pdf_spellings \<longrightarrow> outputPath (stem @ ext) = stem @ ''.md'')
   \<and> ((\<forall>e \<in> set dot_pdf_spellings. \<not> suffix e p) \<longrightarrow> outputPath p = p)
   \<and> outputPath ''a/b/report.PDF'' = ''a/b/report.md''"
proof -
  have "outputPath (''a/b/report'' @ ''.PDF'') = ''a/b/report'' @ ''.md''"
    by (rule outputPath_match) (simp add: dot_pdf_spellings_def)
  then show ?thesis using outputPath_match outputPath_no_match by simp
qed

theorem outputPath_replaces_trailing_pdf_witness:
  "outputPath ''scans.pdf/notes.Pdf'' = ''scans.pdf/notes.md''
   \<and> outputPath ''scans.pdf/notes.txt'' = ''scans.pdf/notes.txt''"
proof -
  have 1: "''.Pdf'' \<in> set dot_pdf_spellings" by (simp add: dot_pdf_spellings_def)
  have 2: "\<forall>e \<in> set dot_pdf_spellings. \<not> suffix e ''scans.pdf/notes.txt''"
    by (simp add: dot_pdf_spellings_def suffix_to_prefix)
  from outputPath_replaces_trailing_pdf [of "''.Pdf''" "''scans.pdf/notes''" "''scans.pdf/notes.txt''"] 1 2
  show ?thesis by simp
qed

subsection \<open>The pipeline\<close>

text \<open>
  C7. When the binary read succeeds, the key is not blank and the session-start request
  is answered with a status outside 200 to 299 and a body, the run ends by \<open>return\<close>: the
  session-start request is the only request sent, the only notice after the opening one
  is \<open>Upload start failed:\<close> with the status and the body, and the vault is unchanged.
\<close>

theorem session_start_failure_aborts:
  assumes "readBinary h file = Inr u8array"
      and "trim (apiKey settings) \<noteq> []"
      and "fetch h (start_request (trim (apiKey settings)) (length u8array)
                      ''application/pdf'' (name file)) = Inr r"
      and "text_body r = Inr startText"
      and "\<not> ok r"
  shows "convertFile h settings file (start v) =
           (Return,
            \<lparr>notices = [''Converting '' @ name file @ '' to Markdown...'',
                        ''Upload start failed: '' @ show_nat (status r) @ '' - '' @ startText],
             requests = [start_request (trim (apiKey settings)) (length u8array)
                           ''application/pdf'' (name file)],
             vault = v\<rparr>)"
  using assms
  by (simp add: convertFile_def convert_try_def produce_markdown_def startUpload_def
                and_then_def Let_def start_def Notice_def sent_def)

theorem session_start_failure_aborts_witness:
  "convertFile (example_host (Inr pdf_bytes) (reply 500 [] ''Internal error'') session_reply session_reply)
       (settings_with_key ''k'') report (start Map.empty) =
     (Return,
      \<lparr>notices = [''Converting report.PDF to Markdown...'',
                  ''Upload start failed: 500 - Internal error''],
       requests = [start_request ''k'' 10 ''application/pdf'' ''report.PDF''],
       vault = Map.empty\<rparr>)"
proof -
  let ?h = "example_host (Inr pdf_bytes) (reply 500 [] ''Internal error'') session_reply session_reply"
  have 1: "readBinary ?h report = Inr pdf_bytes" by (simp add: host_fields)
  have 2: "trim (apiKey (settings_with_key ''k'')) \<noteq> []" by (simp add: settings_fields trim_k)
  have 3: "fetch ?h (start_request (trim (apiKey (settings_with_key ''k''))) (length pdf_bytes)
                      ''application/pdf'' (name report)) = Inr (reply 500 [] ''Internal error'')"
    by (simp add: host_fields scripted_fetch_start)
  have 4: "text_body (reply 500 [] ''Internal error'') = Inr ''Internal error''"
    by (simp add: reply_fields)
  have 5: "\<not> ok (reply 500 [] ''Internal error'')" by (simp add: ok_reply)
  from session_start_failure_aborts [OF 1 2 3 4 5, of Map.empty]
  show ?thesis
    by (simp add: settings_fields trim_k length_pdf_bytes report_fields reply_fields show_nat_500)
qed

text \<open>
  C10. The binary read comes before the key is looked at. When the read fails, whatever
  the key is, the run sends no request and shows, after the opening notice, the notice of
  the \<open>catch\<close> clause with the message of the read's error; the vault is unchanged.
\<close>

theorem read_failure_precedes_key_check:
  assumes "readBinary h file = Inl e"
  shows "convertFile h settings file (start v) =
           (Throw e,
            \<lparr>notices = [''Converting '' @ name file @ '' to Markdown...'',
                        ''Error converting file: '' @ message e],
             requests = [],
             vault = v\<rparr>)"
  using assms
  by (simp add: convertFile_def convert_try_def produce_markdown_def and_then_def
                start_def Notice_def)

theorem read_failure_precedes_key_check_witness:
  "convertFile (example_host (Inl (Error ''ENOENT: no such file'')) session_reply session_reply session_reply)
       (settings_with_key '' '') report (start Map.empty) =
     (Throw (Error ''ENOENT: no such file''),
      \<lparr>notices = [''Converting report.PDF to Markdown...'',
                  ''Error converting file: ENOENT: no such file''],
       requests = [],
       vault = Map.empty\<rparr>)"
proof -
  let ?h = "example_host (Inl (Error ''ENOENT: no such file'')) session_reply session_reply session_reply"
  have 1: "readBinary ?h report = Inl (Error ''ENOENT: no such file'')" by (simp add: host_fields)
  from read_failure_precedes_key_check [OF 1, of "settings_with_key '' ''" Map.empty]
  show ?thesis by (simp add: report_fields)
qed

text \<open>
  C6, as amended. When the key is blank (made of white-space characters only, or empty),
  the run sends no request and leaves the vault unchanged; and when the binary read of
  the source file succeeds, the run ends by \<open>return\<close> with the notice
  \<open>Please set your API key in plugin settings.\<close> as its only notice after the opening one.
\<close>

theorem blank_key_sends_nothing:
  assumes "set ws \<subseteq> set white_space" and "apiKey settings = concat ws"
  shows "requests (snd (convertFile h settings file (start v))) = []
         \<and> vault (snd (convertFile h settings file (start v))) = v
         \<and> (\<forall>u8array. readBinary h file = Inr u8array \<longrightarrow>
               convertFile h settings file (start v) =
                 (Return,
                  \<lparr>notices = [''Converting '' @ name file @ '' to Markdown...'',
                              ''Please set your API key in plugin settings.''],
                   requests = [],
                   vault = v\<rparr>))"
proof -
  have t: "trim (apiKey settings) = []" using assms by (simp add: trim_blank)
  show ?thesis
  proof (cases "readBinary h file")
    case (Inl e)
    then show ?thesis
      by (simp add: convertFile_def convert_try_def produce_markdown_def and_then_def
                    start_def Notice_def)
  next
    case (Inr u8array)
    with t show ?thesis
      by (simp add: convertFile_def convert_try_def produce_markdown_def and_then_def
                    Let_def start_def Notice_def)
  qed
qed

theorem blank_key_sends_nothing_witness:
  "convertFile (example_host (Inr pdf_bytes) session_reply session_reply session_reply)
       (settings_with_key ('' '' @ [CHR 0x09, CHR 0xC2, CHR 0xA0])) report (start Map.empty) =
     (Return,
      \<lparr>notices = [''Converting report.PDF to Markdown...'',
                  ''Please set your API key in plugin settings.''],
       requests = [],
       vault = Map.empty\<rparr>)"
proof -
  let ?h = "example_host (Inr pdf_bytes) session_reply session_reply session_reply"
  let ?ws = "['' '', [CHR 0x09], [CHR 0xC2, CHR 0xA0]]"
  have 1: "set ?ws \<subseteq> set white_space" by (simp add: white_space_def)
  have 2: "apiKey (settings_with_key ('' '' @ [CHR 0x09, CHR 0xC2, CHR 0xA0])) = concat ?ws"
    by (simp add: settings_fields)
  have 3: "readBinary ?h report = Inr pdf_bytes" by (simp add: host_fields)
  from blank_key_sends_nothing [OF 1 2, of ?h report Map.empty] 3
  show ?thesis by (simp add: report_fields)
qed

theorem blank_key_without_config_notice:
  "apiKey (settings_with_key ''  '') = concat ['' '', '' ''] \<and> set ['' '', '' ''] \<subseteq> set white_space
   \<and> ''Please set your API key in plugin settings.'' \<notin>
       set (notices (snd (convertFile
              (example_host (Inl (Error ''file not found'')) session_reply session_reply session_reply)
              (settings_with_key ''  '') report (start Map.empty))))"
  by (simp add: convertFile_def convert_try_def produce_markdown_def and_then_def
                start_def Notice_def host_fields settings_fields report_fields white_space_def)

text \<open>
  C5. A run that does not reach the end of the \<open>try\<close> block, whether it leaves by
  \<open>return\<close> or by an exception, shows exactly one failure notice and leaves the vault as
  it was.
\<close>

theorem failure_atomicity:
  assumes "fst (convertFile h settings file (start v)) \<noteq> Continue ()"
  shows "length (failure_notices (snd (convertFile h settings file (start v)))) = 1
         \<and> vault (snd (convertFile h settings file (start v))) = v"
  using convertFile_effect [OF assms] by (simp add: start_def failure_notices_def)

lemma run_no_candidates:
  "convertFile (example_host (Inr pdf_bytes) session_reply (reply 200 [] file_json)
                  (reply 200 [] no_candidates_json))
       (settings_with_key ''k'') report (start v) =
     (Throw (Error ''No candidates returned''),
      Notice ''Error converting file: No candidates returned''
       (Notice ''API response received, generating markdown...''
        (sent (generate_request (settings_with_key ''k'') ''k'' ''application/pdf'' (JString ''files/abc''))
         (Notice ''Waiting for API response...''
          (Notice ''File uploaded successfully''
           (sent (upload_request ''https://example/upload/123'' 10 ''application/pdf'' pdf_bytes)
            (Notice ''Uploading file...''
             (Notice ''Upload session started''
              (sent (start_request ''k'' 10 ''application/pdf'' ''report.PDF'')
               (Notice ''Converting report.PDF to Markdown...'' (start v)))))))))))"
  by (simp add: convertFile_def convert_try_def produce_markdown_def and_then_def Let_def
                host_fields settings_fields report_fields trim_k length_pdf_bytes
                startUpload_example finalizeUpload_example generate_no_candidates)

theorem failure_atomicity_witness:
  "fst (convertFile (example_host (Inr pdf_bytes) session_reply (reply 200 [] file_json)
                       (reply 200 [] no_candidates_json))
          (settings_with_key ''k'') report (start Map.empty)) = Throw (Error ''No candidates returned'')
   \<and> length (failure_notices (snd (convertFile
          (example_host (Inr pdf_bytes) session_reply (reply 200 [] file_json)
             (reply 200 [] no_candidates_json))
          (settings_with_key ''k'') report (start Map.empty)))) = 1
   \<and> vault (snd (convertFile
          (example_host (Inr pdf_bytes) session_reply (reply 200 [] file_json)
             (reply 200 [] no_candidates_json))
          (settings_with_key ''k'') report (start Map.empty))) = Map.empty"
proof -
  let ?run = "convertFile (example_host (Inr pdf_bytes) session_reply (reply 200 [] file_json)
                             (reply 200 [] no_candidates_json))
                (settings_with_key ''k'') report (start Map.empty)"
  have 1: "fst ?run = Throw (Error ''No candidates returned'')"
    by (simp add: run_no_candidates)
  then have "fst ?run \<noteq> Continue ()" by simp
  from failure_atomicity [OF this] 1 show ?thesis by simp
qed

text \<open>
  C8. The writer, at the output path: when the vault holds a file there, its content is
  replaced by the Markdown, and when the vault holds nothing there, a file with the
  Markdown is created; in both cases the write succeeds. And a run that reaches the end
  of the \<open>try\<close> block has changed the vault at the output path only, where a file now
  holds the Markdown that the earlier stages produced; before the run the vault held a
  file or nothing there.
\<close>

theorem writer_overwrites_or_creates:
  "((vault w (outputPath (path file)) = None
       \<or> (\<exists>old. vault w (outputPath (path file)) = Some (File old))) \<longrightarrow>
      writeOutput file markdown w =
        (Continue (),
         Notice (''Converted '' @ name file @ '' to '' @ outputPath (path file))
           (w\<lparr>vault := (vault w)(outputPath (path file) \<mapsto> File markdown)\<rparr>)))
   \<and> (fst (convertFile h settings file (start v)) = Continue () \<longrightarrow>
        (\<exists>produced w1.
            produce_markdown h settings file
                (Notice (''Converting '' @ name file @ '' to Markdown...'') (start v))
              = (Continue produced, w1)
          \<and> vault (snd (convertFile h settings file (start v)))
              = v(outputPath (path file) \<mapsto> File produced)
          \<and> (v (outputPath (path file)) = None
               \<or> (\<exists>old. v (outputPath (path file)) = Some (File old)))))"
proof (intro conjI impI)
  assume "vault w (outputPath (path file)) = None
            \<or> (\<exists>old. vault w (outputPath (path file)) = Some (File old))"
  then show "writeOutput file markdown w =
        (Continue (),
         Notice (''Converted '' @ name file @ '' to '' @ outputPath (path file))
           (w\<lparr>vault := (vault w)(outputPath (path file) \<mapsto> File markdown)\<rparr>))"
    by (auto simp: writeOutput_def Let_def create_def modify_def)
next
  let ?w0 = "Notice (''Converting '' @ name file @ '' to Markdown...'') (start v)"
  assume ok: "fst (convertFile h settings file (start v)) = Continue ()"
  obtain fl w1 where p: "produce_markdown h settings file ?w0 = (fl, w1)"
    by (cases "produce_markdown h settings file ?w0")
  have k: "vault w1 = v"
    using produce_markdown_keeps[of ?w0 h settings "file"] p
    by (simp add: keeps_vault_def vault_Notice start_def)
  from ok p obtain produced where fl: "fl = Continue produced"
    by (cases fl) (simp_all add: convertFile_def convert_try_def and_then_def)
  from ok p fl have w: "fst (writeOutput file produced w1) = Continue ()"
    by (simp add: convertFile_def convert_try_def and_then_def split: prod.splits flow.splits)
  have e: "v (outputPath (path file)) = None \<or> (\<exists>old. v (outputPath (path file)) = Some (File old))"
    using w k by (auto simp: writeOutput_def Let_def create_def split: option.splits entry.splits if_splits)
  have "vault (snd (writeOutput file produced w1)) = v(outputPath (path file) \<mapsto> File produced)"
    using e k by (auto simp: writeOutput_def Let_def create_def modify_def vault_Notice)
  moreover have "convertFile h settings file (start v) = writeOutput file produced w1"
  proof -
    from w obtain w2 where "writeOutput file produced w1 = (Continue (), w2)"
      by (cases "writeOutput file produced w1") auto
    with p fl show ?thesis by (simp add: convertFile_def convert_try_def and_then_def)
  qed
  ultimately show "\<exists>produced w1.
            produce_markdown h settings file ?w0 = (Continue produced, w1)
          \<and> vault (snd (convertFile h settings file (start v)))
              = v(outputPath (path file) \<mapsto> File produced)
          \<and> (v (outputPath (path file)) = None
               \<or> (\<exists>old. v (outputPath (path file)) = Some (File old)))"
    using p fl e by auto
qed

lemma produce_title:
  "produce_markdown (example_host (Inr pdf_bytes) session_reply (reply 200 [] file_json)
                       (reply 200 [] title_json))
       (settings_with_key ''k'') report w =
     (Continue ''# Title'',
      Notice ''API response received, generating markdown...''
       (sent (generate_request (settings_with_key ''k'') ''k'' ''application/pdf'' (JString ''files/abc''))
        (Notice ''Waiting for API response...''
         (Notice ''File uploaded successfully''
          (sent (upload_request ''https://example/upload/123'' 10 ''application/pdf'' pdf_bytes)
           (Notice ''Uploading file...''
            (Notice ''Upload session started''
             (sent (start_request ''k'' 10 ''application/pdf'' ''report.PDF'') w))))))))"
  by (simp add: produce_markdown_def and_then_def Let_def
                host_fields settings_fields report_fields trim_k length_pdf_bytes
                startUpload_example finalizeUpload_example generate_title)

theorem writer_overwrites_or_creates_witness:
  "vault (snd (convertFile (example_host (Inr pdf_bytes) session_reply (reply 200 [] file_json)
                              (reply 200 [] title_json))
                 (settings_with_key ''k'') report (start Map.empty)))
     = [''a/b/report.md'' \<mapsto> File ''# Title'']
   \<and> vault (snd (convertFile (example_host (Inr pdf_bytes) session_reply (reply 200 [] file_json)
                              (reply 200 [] title_json))
                 (settings_with_key ''k'') report (start [''a/b/report.md'' \<mapsto> File ''old''])))
     = [''a/b/report.md'' \<mapsto> File ''# Title'']"
proof -
  let ?h = "example_host (Inr pdf_bytes) session_reply (reply 200 [] file_json) (reply 200 [] title_json)"
  let ?s = "settings_with_key ''k''"
  have p: "outputPath (path report) = ''a/b/report.md''"
    using outputPath_match[of "''.PDF''" "''a/b/report''"]
    by (simp add: dot_pdf_spellings_def report_fields)
  have run: "fst (convertFile ?h ?s report (start v)) = Continue ()"
    if "v ''a/b/report.md'' = None \<or> v ''a/b/report.md'' = Some (File ''old'')" for v
    using that
    by (auto simp: convertFile_def convert_try_def and_then_def produce_title
                   writeOutput_def Let_def p create_def modify_def
                   vault_Notice vault_sent start_def)
  have res: "vault (snd (convertFile ?h ?s report (start v))) = v(''a/b/report.md'' \<mapsto> File ''# Title'')"
    if "v ''a/b/report.md'' = None \<or> v ''a/b/report.md'' = Some (File ''old'')" for v
  proof -
    from writer_overwrites_or_creates [of "start v" report "''# Title''" ?h ?s v] run[of v, OF that]
    obtain produced w1 where
      a: "produce_markdown ?h ?s report (Notice (''Converting '' @ name report @ '' to Markdown...'') (start v))
            = (Continue produced, w1)"
      and b: "vault (snd (convertFile ?h ?s report (start v))) = v(outputPath (path report) \<mapsto> File produced)"
      by blast
    from a have "produced = ''# Title''" by (simp add: produce_title)
    with b p show ?thesis by simp
  qed
  from res[of Map.empty] res[of "[''a/b/report.md'' \<mapsto> File ''old'']"]
  show ?thesis by simp
qed

text \<open>
  C4. The run in which the session starts, the upload is answered with status 200 and
  the body \<open>{}\<close>, whose parsed value has no member \<open>file\<close>. Reading \<open>uri\<close> of the missing
  member throws, so the run ends in the \<open>catch\<close> clause: two requests are sent, none for
  the generation, and the failure notice is the one of the \<open>catch\<close> clause, not
  \<open>No file URI returned\<close>.
\<close>

theorem upload_answer_without_file_member:
  "convertFile (example_host (Inr pdf_bytes) session_reply (reply 200 [] ''{}'') (reply 200 [] title_json))
       (settings_with_key ''k'') report (start Map.empty) =
     (Throw (TypeError (''Cannot read properties of undefined (reading '' @ [QUOTE] @ ''uri''
                        @ [QUOTE] @ '')'')),
      \<lparr>notices = [''Converting report.PDF to Markdown...'',
                  ''Upload session started'',
                  ''Uploading file...'',
                  ''File uploaded successfully'',
                  ''Error converting file: Cannot read properties of undefined (reading ''
                    @ [QUOTE] @ ''uri'' @ [QUOTE] @ '')''],
       requests = [start_request ''k'' 10 ''application/pdf'' ''report.PDF'',
                   upload_request ''https://example/upload/123'' 10 ''application/pdf'' pdf_bytes],
       vault = Map.empty\<rparr>)"
  by (simp add: convertFile_def convert_try_def produce_markdown_def and_then_def Let_def
                host_fields settings_fields report_fields trim_k length_pdf_bytes
                startUpload_example finalizeUpload_empty_object
                cannot_read_def Notice_def sent_def start_def)

end
